theory Spec2Isabelle
  imports Main "HOL-Library.Sublist"
begin

section \<open>JavaScript values\<close>

text \<open>
  Operations, diffs and handler parameters are JSON documents fetched from the indexing
  service and read at run time with property access and \<^verbatim>\<open>lodash/get\<close>. They are
  modelled as JavaScript values. Numbers are the integers (ids, counters, nonces, levels);
  an object is the list of its own properties, whose keys are taken to be unique.
\<close>

datatype jv =
    JUndef
  | JNull
  | JBool bool
  | JNum int
  | JStr string
  | JArr "jv list"
  | JObj "(string \<times> jv) list"

datatype js_error =
    TypeError
  | PreconditionError
  | StructError
  | FetchError

fun nullish :: "jv \<Rightarrow> bool" where
  "nullish JUndef = True"
| "nullish JNull = True"
| "nullish _ = False"

text \<open>Truthiness, as the condition of \<^verbatim>\<open>c ? a : b\<close> reads it.\<close>

fun truthy :: "jv \<Rightarrow> bool" where
  "truthy JUndef = False"
| "truthy JNull = False"
| "truthy (JBool b) = b"
| "truthy (JNum n) = (n \<noteq> 0)"
| "truthy (JStr s) = (s \<noteq> [])"
| "truthy (JArr _) = True"
| "truthy (JObj _) = True"

text \<open>
  \<^verbatim>\<open>a === b\<close>: no coercion. Two objects or arrays that come from different places of a
  parsed document are different references, so they are never strictly equal.
\<close>

fun strictEq :: "jv \<Rightarrow> jv \<Rightarrow> bool" where
  "strictEq (JArr _) _ = False"
| "strictEq (JObj _) _ = False"
| "strictEq a b = (a = b)"

text \<open>
  \<^verbatim>\<open>v[k]\<close> on a non-nullish value. The property names this program reads are no built-in
  property of a string, number or array, so only an object yields a value.
\<close>

fun getProp :: "jv \<Rightarrow> string \<Rightarrow> jv" where
  "getProp (JObj fs) k = (case map_of fs k of Some v \<Rightarrow> v | None \<Rightarrow> JUndef)"
| "getProp _ k = JUndef"

text \<open>\<^verbatim>\<open>k in v\<close> throws a TypeError unless \<open>v\<close> is an object (an array is one).\<close>

fun inOp :: "string \<Rightarrow> jv \<Rightarrow> js_error + bool" where
  "inOp k (JObj fs) = Inr (map_of fs k \<noteq> None)"
| "inOp k (JArr xs) = Inr False"
| "inOp k _ = Inl TypeError"

subsection \<open>String conversion in template literals\<close>

definition digit_char :: "nat \<Rightarrow> char" where
  "digit_char d = ''0123456789'' ! d"

function nat_to_string :: "nat \<Rightarrow> string" where
  "nat_to_string n =
     (if n < 10 then [digit_char n] else nat_to_string (n div 10) @ [digit_char (n mod 10)])"
  by pat_completeness auto
termination
  by (relation "measure id") auto

declare nat_to_string.simps [simp del]

definition int_to_string :: "int \<Rightarrow> string" where
  "int_to_string i = (if i < 0 then CHR ''-'' # nat_to_string (nat (- i)) else nat_to_string (nat i))"

fun join_comma :: "string list \<Rightarrow> string" where
  "join_comma [] = []"
| "join_comma [s] = s"
| "join_comma (s # t # ss) = s @ '','' @ join_comma (t # ss)"

fun toString :: "jv \<Rightarrow> string" where
  "toString JUndef = ''undefined''"
| "toString JNull = ''null''"
| "toString (JBool b) = (if b then ''true'' else ''false'')"
| "toString (JNum n) = int_to_string n"
| "toString (JStr s) = s"
| "toString (JArr xs) = join_comma (map (\<lambda>x. if nullish x then [] else toString x) xs)"
| "toString (JObj fs) = ''[object Object]''"

subsection \<open>lodash get\<close>

text \<open>
  \<^verbatim>\<open>get(object, path)\<close> for the paths of this program, which are words joined by dots:
  the path is one key when the object has a property of that very name, and is split at
  the dots otherwise; the walk stops with \<^verbatim>\<open>undefined\<close> at a nullish value.
\<close>

fun stringToPath :: "string \<Rightarrow> string list" where
  "stringToPath [] = [[]]"
| "stringToPath (c # cs) =
     (if c = CHR ''.'' then [] # stringToPath cs
      else (case stringToPath cs of [] \<Rightarrow> [[c]] | s # ss \<Rightarrow> (c # s) # ss))"

definition castPath :: "string \<Rightarrow> jv \<Rightarrow> string list" where
  "castPath p obj = (if inOp p obj = Inr True then [p] else stringToPath p)"

fun baseGet :: "jv \<Rightarrow> string list \<Rightarrow> jv" where
  "baseGet obj [] = obj"
| "baseGet obj (k # ks) = (if nullish obj then JUndef else baseGet (getProp obj k) ks)"

definition lodash_get :: "jv \<Rightarrow> string \<Rightarrow> jv" where
  "lodash_get obj p = (if nullish obj then JUndef else baseGet obj (castPath p obj))"

section \<open>Event identity\<close>

text \<open>
  \<^verbatim>\<open>metrohash128\<close> is an external library: the digest is a parameter \<open>mh\<close>.
  \<open>eventIdInput\<close> is the template literal that \<open>createEventId\<close> hashes.
\<close>

definition eventIdInput :: "string \<Rightarrow> jv \<Rightarrow> int \<Rightarrow> string" where
  "eventIdInput handlerName transaction idx =
     handlerName @ '':'' @ toString (getProp transaction ''hash'') @ '':''
       @ toString (getProp transaction ''counter'') @ '':''
       @ (if getProp transaction ''nonce'' \<noteq> JNull then toString (getProp transaction ''nonce'')
          else ''unset'')
       @ '':'' @ int_to_string idx"

definition hasIdentityFields :: "jv \<Rightarrow> js_error + bool" where
  "hasIdentityFields transaction =
     (case inOp ''hash'' transaction of
        Inl e \<Rightarrow> Inl e
      | Inr False \<Rightarrow> Inr False
      | Inr True \<Rightarrow>
          (case inOp ''counter'' transaction of
             Inl e \<Rightarrow> Inl e
           | Inr False \<Rightarrow> Inr False
           | Inr True \<Rightarrow> inOp ''nonce'' transaction))"

definition createEventId :: "(string \<Rightarrow> string) \<Rightarrow> string \<Rightarrow> jv \<Rightarrow> int \<Rightarrow> js_error + string" where
  "createEventId mh handlerName transaction idx =
     (case hasIdentityFields transaction of
        Inl e \<Rightarrow> Inl e
      | Inr False \<Rightarrow> Inl PreconditionError
      | Inr True \<Rightarrow> Inr (mh (eventIdInput handlerName transaction idx)))"

section \<open>Bigmap diff index\<close>

text \<open>
  The \<open>action\<close> argument is one action or an array of actions; the optional \<open>key\<close> is
  \<^verbatim>\<open>undefined\<close> when the caller leaves it out. Reading a property of a nullish value
  throws a TypeError; \<^verbatim>\<open>&&\<close> evaluates from the left and stops at the first false.
\<close>

datatype action_arg = OneAction string | ManyActions "string list"

fun actionsOf :: "action_arg \<Rightarrow> string list" where
  "actionsOf (OneAction a) = [a]"
| "actionsOf (ManyActions as) = as"

definition isMatchingDiff :: "jv \<Rightarrow> int option \<Rightarrow> string \<Rightarrow> action_arg \<Rightarrow> jv \<Rightarrow> js_error + bool" where
  "isMatchingDiff diff bigmapId path action key =
     (if nullish diff then Inl TypeError
      else if \<not> (case bigmapId of None \<Rightarrow> True | Some b \<Rightarrow> strictEq (getProp diff ''bigmap'') (JNum b))
        then Inr False
      else if \<not> strictEq (getProp diff ''path'') (JStr path) then Inr False
      else if getProp diff ''action'' \<notin> set (map JStr (actionsOf action)) then Inr False
      else if truthy key then
        (if nullish (getProp diff ''content'') then Inl TypeError
         else Inr (strictEq (getProp (getProp diff ''content'') ''key'') key))
      else Inr True)"

fun array_find :: "('a \<Rightarrow> js_error + bool) \<Rightarrow> 'a list \<Rightarrow> js_error + 'a option" where
  "array_find p [] = Inr None"
| "array_find p (x # xs) =
     (case p x of Inl e \<Rightarrow> Inl e | Inr True \<Rightarrow> Inr (Some x) | Inr False \<Rightarrow> array_find p xs)"

fun array_filter :: "('a \<Rightarrow> js_error + bool) \<Rightarrow> 'a list \<Rightarrow> js_error + 'a list" where
  "array_filter p [] = Inr []"
| "array_filter p (x # xs) =
     (case p x of
        Inl e \<Rightarrow> Inl e
      | Inr b \<Rightarrow>
          (case array_filter p xs of
             Inl e \<Rightarrow> Inl e
           | Inr r \<Rightarrow> Inr (if b then x # r else r)))"

text \<open>
  \<open>findDiff\<close> returns \<open>None\<close> for JavaScript's \<^verbatim>\<open>undefined\<close> (nothing found). A \<open>diffs\<close>
  argument that is no array has no \<^verbatim>\<open>find\<close> or \<^verbatim>\<open>filter\<close> method: a TypeError.
\<close>

definition findDiff :: "jv \<Rightarrow> int option \<Rightarrow> string \<Rightarrow> action_arg \<Rightarrow> jv \<Rightarrow> js_error + jv option" where
  "findDiff diffs bigmapId path action key =
     (case diffs of
        JArr ds \<Rightarrow> array_find (\<lambda>diff. isMatchingDiff diff bigmapId path action key) ds
      | _ \<Rightarrow> Inl TypeError)"

definition filterDiffs :: "jv \<Rightarrow> int option \<Rightarrow> string \<Rightarrow> action_arg \<Rightarrow> jv \<Rightarrow> js_error + jv list" where
  "filterDiffs diffs bigmapId path action key =
     (case diffs of
        JArr ds \<Rightarrow> array_filter (\<lambda>diff. isMatchingDiff diff bigmapId path action key) ds
      | _ \<Rightarrow> Inl TypeError)"

text \<open>
  A diff as its type \<^verbatim>\<open>BigmapDiff\<close> declares it: an object whose \<open>content\<close> is an object.
  On such diffs the predicate does not throw.
\<close>

fun isObject :: "jv \<Rightarrow> bool" where
  "isObject (JObj _) = True"
| "isObject _ = False"

definition wfDiff :: "jv \<Rightarrow> bool" where
  "wfDiff diff = (isObject diff \<and> isObject (getProp diff ''content''))"

section \<open>Pattern matcher\<close>

text \<open>
  A \<^verbatim>\<open>Pattern\<close> declares expected string literals for some of the attributes
  \<open>entrypoint\<close> and \<open>target_address\<close>; it is the list of its entries.
\<close>

datatype pattern_key = Entrypoint | Target_address

fun PATTERN_TO_PATH :: "pattern_key \<Rightarrow> string" where
  "PATTERN_TO_PATH Entrypoint = ''parameter.entrypoint''"
| "PATTERN_TO_PATH Target_address = ''target.address''"

type_synonym Pattern = "(pattern_key \<times> string) list"

definition transactionMatchesPattern :: "jv \<Rightarrow> Pattern \<Rightarrow> bool" where
  "transactionMatchesPattern transaction pattern =
     list_all (\<lambda>(key, val). strictEq (lodash_get transaction (PATTERN_TO_PATH key)) (JStr val)) pattern"

section \<open>Paginated fetcher\<close>

text \<open>
  The indexing service is a parameter \<open>got\<close>: the response to the request number \<open>n\<close>
  (counted from 0) with the given offset and limit, or a transport failure. The loop is a
  do-while: the body runs before \<open>currentPage < maxPages\<close> is first tested. The result
  pairs the number of requests issued with the outcome.
\<close>

type_synonym source = "nat \<Rightarrow> nat \<Rightarrow> nat \<Rightarrow> js_error + jv list"

function fetchPages :: "source \<Rightarrow> nat \<Rightarrow> nat \<Rightarrow> nat \<Rightarrow> jv list \<Rightarrow> nat \<times> (js_error + jv list)" where
  "fetchPages got perPage maxPages currentPage allTransactions =
     (case got currentPage (currentPage * perPage) perPage of
        Inl e \<Rightarrow> (1, Inl e)
      | Inr transactions \<Rightarrow>
          (let all' = allTransactions @ transactions in
           if length transactions < perPage then (1, Inr all')
           else if currentPage + 1 < maxPages then
             (case fetchPages got perPage maxPages (currentPage + 1) all' of
                (n, r) \<Rightarrow> (Suc n, r))
           else (1, Inr all')))"
  by pat_completeness auto
termination
  by (relation "measure (\<lambda>(got, perPage, maxPages, currentPage, all). maxPages - currentPage)") auto

declare fetchPages.simps [simp del]

text \<open>
  \<^verbatim>\<open>uniqBy\<close> of lodash: the first element of each key, in the order of the input.
  Keys are compared as values; the ids of the indexing service are numbers.
\<close>

fun baseUniq :: "('a \<Rightarrow> 'k) \<Rightarrow> 'k list \<Rightarrow> 'a list \<Rightarrow> 'a list" where
  "baseUniq f seen [] = []"
| "baseUniq f seen (x # xs) =
     (if f x \<in> set seen then baseUniq f seen xs else x # baseUniq f (seen @ [f x]) xs)"

definition uniqBy :: "('a \<Rightarrow> 'k) \<Rightarrow> 'a list \<Rightarrow> 'a list" where
  "uniqBy f xs = baseUniq f [] xs"

definition recordId :: "jv \<Rightarrow> jv" where
  "recordId r = getProp r ''id''"

definition getTransactions :: "source \<Rightarrow> nat \<Rightarrow> nat \<Rightarrow> nat \<times> (js_error + jv list)" where
  "getTransactions got perPage maxPages =
     (case fetchPages got perPage maxPages 0 [] of
        (n, Inl e) \<Rightarrow> (n, Inl e)
      | (n, Inr allTransactions) \<Rightarrow> (n, Inr (uniqBy recordId allTransactions)))"

definition getOriginations :: "source \<Rightarrow> nat \<Rightarrow> nat \<Rightarrow> nat \<times> (js_error + jv list)" where
  "getOriginations got perPage maxPages =
     (case fetchPages got perPage maxPages 0 [] of
        (n, Inl e) \<Rightarrow> (n, Inl e)
      | (n, Inr allOriginations) \<Rightarrow> (n, Inr (uniqBy recordId allOriginations)))"

text \<open>A data set of \<open>available\<close> records served in pages, record \<open>i\<close> being \<open>mk i\<close>.\<close>

definition pagedSource :: "(nat \<Rightarrow> jv) \<Rightarrow> nat \<Rightarrow> source" where
  "pagedSource mk available n offset limit =
     Inr (map mk [offset ..< min (offset + limit) available])"

text \<open>A source that answers every request with exactly \<open>limit\<close> records.\<close>

definition fullSource :: "(nat \<Rightarrow> jv) \<Rightarrow> source" where
  "fullSource mk n offset limit = Inr (map mk [offset ..< offset + limit])"

definition numbered :: "nat \<Rightarrow> jv" where
  "numbered i = JObj [(''id'', JNum (int i))]"

text \<open>The records of page \<open>j\<close>, as the request \<open>j\<close> of the loop asks for them.\<close>

definition pageRecords :: "source \<Rightarrow> nat \<Rightarrow> nat \<Rightarrow> jv list" where
  "pageRecords got perPage j =
     (case got j (j * perPage) perPage of Inl e \<Rightarrow> [] | Inr ts \<Rightarrow> ts)"

text \<open>A growing data set: the second page repeats the last record of the first.\<close>

definition overlapSource :: source where
  "overlapSource n offset limit =
     (if n = 0 then Inr [numbered 0, numbered 1]
      else if n = 1 then Inr [numbered 1, numbered 2]
      else Inr [])"

section \<open>Handlers\<close>

text \<open>
  The validators of \<^verbatim>\<open>lib/validators\<close> and the marketplace address of \<^verbatim>\<open>consts\<close>
  are parameters. \<^verbatim>\<open>assert\<close> throws when the event, without its \<open>type\<close>, does not
  have the shape of the schema.
\<close>

record validators =
  ContractAddress :: "jv \<Rightarrow> bool"
  TezosAddress :: "jv \<Rightarrow> bool"
  IsoDateString :: "jv \<Rightarrow> bool"
  PositiveInteger :: "jv \<Rightarrow> bool"
  PgBigInt :: "jv \<Rightarrow> bool"

fun isString :: "jv \<Rightarrow> bool" where
  "isString (JStr _) = True"
| "isString _ = False"

subsection \<open>OBJKT\_RETRACT\_ASK\_V3\<close>

definition EVENT_TYPE_OBJKT_RETRACT_ASK_V3 :: string where
  "EVENT_TYPE_OBJKT_RETRACT_ASK_V3 = ''OBJKT_RETRACT_ASK_V3''"

record ObjktRetractAskV3Event =
  ra_id :: string
  ra_type :: string
  ra_opid :: string
  ra_ophash :: jv
  ra_level :: jv
  ra_timestamp :: jv
  ra_fa2_address :: jv
  ra_seller_address :: jv
  ra_token_id :: jv
  ra_ask_id :: jv

definition ObjktRetractAskV3EventSchema :: "validators \<Rightarrow> ObjktRetractAskV3Event \<Rightarrow> bool" where
  "ObjktRetractAskV3EventSchema V ev =
     (PgBigInt V (JStr (ra_opid ev))
      \<and> IsoDateString V (ra_timestamp ev)
      \<and> PositiveInteger V (ra_level ev)
      \<and> ContractAddress V (ra_fa2_address ev)
      \<and> isString (ra_token_id ev)
      \<and> isString (ra_ophash ev)
      \<and> TezosAddress V (ra_seller_address ev)
      \<and> PgBigInt V (ra_ask_id ev))"

definition retract_ask_accept :: "string \<Rightarrow> Pattern" where
  "retract_ask_accept marketplace = [(Entrypoint, ''retract_ask''), (Target_address, marketplace)]"

text \<open>\<^verbatim>\<open>get(undefined, path)\<close> is \<^verbatim>\<open>undefined\<close>: nothing found leaves every field of the diff undefined.\<close>

definition diffValue :: "jv option \<Rightarrow> jv" where
  "diffValue d = (case d of None \<Rightarrow> JUndef | Some v \<Rightarrow> v)"

definition retract_ask_exec ::
  "(string \<Rightarrow> string) \<Rightarrow> validators \<Rightarrow> jv \<Rightarrow> js_error + ObjktRetractAskV3Event" where
  "retract_ask_exec mh V transaction =
     (let askId = lodash_get transaction ''parameter.value'' in
      case findDiff (lodash_get transaction ''diffs'') (Some 574013) ''asks''
             (OneAction ''remove_key'') askId of
        Inl e \<Rightarrow> Inl e
      | Inr found \<Rightarrow>
          (let diff = diffValue found;
               fa2Address = lodash_get diff ''content.value.token.address'';
               tokenId = lodash_get diff ''content.value.token.token_id'';
               sellerAddress = lodash_get diff ''content.value.creator''
           in case createEventId mh EVENT_TYPE_OBJKT_RETRACT_ASK_V3 transaction 0 of
                Inl e \<Rightarrow> Inl e
              | Inr id' \<Rightarrow>
                  (let event = \<lparr> ra_id = id',
                         ra_type = EVENT_TYPE_OBJKT_RETRACT_ASK_V3,
                         ra_opid = toString (getProp transaction ''id''),
                         ra_ophash = getProp transaction ''hash'',
                         ra_level = getProp transaction ''level'',
                         ra_timestamp = getProp transaction ''timestamp'',
                         ra_fa2_address = fa2Address,
                         ra_seller_address = sellerAddress,
                         ra_token_id = tokenId,
                         ra_ask_id = askId \<rparr>
                   in if ObjktRetractAskV3EventSchema V event then Inr event
                      else Inl StructError)))"

subsection \<open>8BID\_24X24\_MONOCHROME\_CANCEL\_SWAP\<close>

definition EVENT_TYPE_8BID_24X24_MONOCHROME_CANCEL_SWAP :: string where
  "EVENT_TYPE_8BID_24X24_MONOCHROME_CANCEL_SWAP = ''8BID_24X24_MONOCHROME_CANCEL_SWAP''"

record EightbidCancelSwap24x24MonochromeEvent =
  cs_id :: string
  cs_type :: string
  cs_opid :: jv
  cs_timestamp :: jv
  cs_level :: jv
  cs_fa2_address :: jv
  cs_seller_address :: jv
  cs_artist_address :: jv
  cs_token_id :: jv
  cs_swap_id :: jv

definition EightbidCancelSwap24x24MonochromeSchema ::
  "validators \<Rightarrow> EightbidCancelSwap24x24MonochromeEvent \<Rightarrow> bool" where
  "EightbidCancelSwap24x24MonochromeSchema V ev =
     (PositiveInteger V (cs_opid ev)
      \<and> IsoDateString V (cs_timestamp ev)
      \<and> PositiveInteger V (cs_level ev)
      \<and> ContractAddress V (cs_fa2_address ev)
      \<and> isString (cs_token_id ev)
      \<and> TezosAddress V (cs_seller_address ev)
      \<and> TezosAddress V (cs_artist_address ev)
      \<and> PgBigInt V (cs_swap_id ev))"

text \<open>
  \<^verbatim>\<open>transaction.diffs\<close> and \<^verbatim>\<open>transaction.id\<close> are plain property reads, which throw on
  a nullish transaction. The second argument of \<open>createEventId\<close> is \<^verbatim>\<open>transaction.id\<close>.
\<close>

definition cancel_swap_exec ::
  "(string \<Rightarrow> string) \<Rightarrow> validators \<Rightarrow> jv \<Rightarrow> js_error + EightbidCancelSwap24x24MonochromeEvent" where
  "cancel_swap_exec mh V transaction =
     (let swapId = lodash_get transaction ''parameter.value'' in
      if nullish transaction then Inl TypeError
      else case findDiff (getProp transaction ''diffs'') (Some 128202) ''swap_list''
                  (OneAction ''update_key'') swapId of
        Inl e \<Rightarrow> Inl e
      | Inr found \<Rightarrow>
          (let diff = diffValue found;
               fa2Address = lodash_get diff ''content.value.nft_contract_address'';
               tokenId = lodash_get diff ''content.value.nft_id'';
               sellerAddress = lodash_get diff ''content.value.seller'';
               artistAddress = lodash_get diff ''content.value.creator''
           in case createEventId mh EVENT_TYPE_8BID_24X24_MONOCHROME_CANCEL_SWAP
                     (getProp transaction ''id'') 0 of
                Inl e \<Rightarrow> Inl e
              | Inr id' \<Rightarrow>
                  (let event = \<lparr> cs_id = id',
                         cs_type = EVENT_TYPE_8BID_24X24_MONOCHROME_CANCEL_SWAP,
                         cs_opid = getProp transaction ''id'',
                         cs_timestamp = getProp transaction ''timestamp'',
                         cs_level = getProp transaction ''level'',
                         cs_fa2_address = fa2Address,
                         cs_seller_address = sellerAddress,
                         cs_artist_address = artistAddress,
                         cs_token_id = tokenId,
                         cs_swap_id = swapId \<rparr>
                   in if EightbidCancelSwap24x24MonochromeSchema V event then Inr event
                      else Inl StructError)))"

subsection \<open>Example data\<close>

definition exampleValidators :: validators where
  "exampleValidators =
     \<lparr> ContractAddress = isString,
       TezosAddress = isString,
       IsoDateString = isString,
       PositiveInteger = (\<lambda>v. case v of JNum n \<Rightarrow> 0 < n | _ \<Rightarrow> False),
       PgBigInt = isString \<rparr>"

definition askDiff :: "string \<Rightarrow> jv" where
  "askDiff k =
     JObj [(''bigmap'', JNum 574013), (''path'', JStr ''asks''), (''action'', JStr ''remove_key''),
           (''content'', JObj [(''key'', JStr k),
              (''value'', JObj [(''token'', JObj [(''address'', JStr ''KT1fa2''),
                                                  (''token_id'', JStr ''3'')]),
                                (''creator'', JStr ''tz1seller'')])])]"

definition exampleRetractAsk :: jv where
  "exampleRetractAsk =
     JObj [(''id'', JNum 42), (''hash'', JStr ''op''), (''counter'', JNum 7), (''nonce'', JNull),
           (''level'', JNum 100), (''timestamp'', JStr ''2022-01-01T00:00:00Z''),
           (''parameter'', JObj [(''entrypoint'', JStr ''retract_ask''), (''value'', JStr ''9'')]),
           (''target'', JObj [(''address'', JStr ''KT1market'')]),
           (''diffs'', JArr [askDiff ''9''])]"

definition swapDiff :: "string \<Rightarrow> jv" where
  "swapDiff k =
     JObj [(''bigmap'', JNum 128202), (''path'', JStr ''swap_list''), (''action'', JStr ''update_key''),
           (''content'', JObj [(''key'', JStr k),
              (''value'', JObj [(''nft_contract_address'', JStr ''KT1fa2''), (''nft_id'', JStr ''3''),
                                (''seller'', JStr ''tz1seller''), (''creator'', JStr ''tz1artist'')])])]"

definition exampleCancelSwap :: jv where
  "exampleCancelSwap =
     JObj [(''id'', JNum 42), (''hash'', JStr ''op''), (''counter'', JNum 7), (''nonce'', JNull),
           (''level'', JNum 100), (''timestamp'', JStr ''2022-01-01T00:00:00Z''),
           (''parameter'', JObj [(''entrypoint'', JStr ''cancelswap''), (''value'', JStr ''9'')]),
           (''diffs'', JArr [swapDiff ''9''])]"

section \<open>Properties of the event identity\<close>

lemma nat_to_string_0: "nat_to_string 0 = ''0''"
  by (simp add: nat_to_string.simps digit_char_def)

lemma createEventId_obj:
  "createEventId mh h (JObj fs) i =
     (if map_of fs ''hash'' \<noteq> None \<and> map_of fs ''counter'' \<noteq> None \<and> map_of fs ''nonce'' \<noteq> None
      then Inr (mh (eventIdInput h (JObj fs) i)) else Inl PreconditionError)"
  by (auto simp: createEventId_def hasIdentityFields_def split: bool.splits)

text \<open>
  C1. \<open>createEventId\<close> is a function of the handler type, the sub-index and the \<open>hash\<close>,
  \<open>counter\<close> and \<open>nonce\<close> fields of the operation: two operation records that agree on
  these three fields (as present with the same value, or as absent) give the same outcome
  for the same handler type and sub-index, whatever their other fields are.
\<close>

theorem createEventId_depends_only_on_identity_fields:
  assumes "map_of fs1 ''hash'' = map_of fs2 ''hash''"
    and "map_of fs1 ''counter'' = map_of fs2 ''counter''"
    and "map_of fs1 ''nonce'' = map_of fs2 ''nonce''"
  shows "createEventId mh h (JObj fs1) i = createEventId mh h (JObj fs2) i"
  using assms by (simp add: createEventId_obj eventIdInput_def)

theorem createEventId_depends_only_on_identity_fields_witness:
  "map_of [(''hash'', JStr ''op''), (''counter'', JNum 7), (''nonce'', JNull), (''level'', JNum 1)] ''hash''
     = map_of [(''id'', JNum 5), (''nonce'', JNull), (''counter'', JNum 7), (''hash'', JStr ''op'')] ''hash''
   \<and> map_of [(''hash'', JStr ''op''), (''counter'', JNum 7), (''nonce'', JNull), (''level'', JNum 1)] ''counter''
     = map_of [(''id'', JNum 5), (''nonce'', JNull), (''counter'', JNum 7), (''hash'', JStr ''op'')] ''counter''
   \<and> map_of [(''hash'', JStr ''op''), (''counter'', JNum 7), (''nonce'', JNull), (''level'', JNum 1)] ''nonce''
     = map_of [(''id'', JNum 5), (''nonce'', JNull), (''counter'', JNum 7), (''hash'', JStr ''op'')] ''nonce''
   \<and> createEventId (\<lambda>s. s) ''H''
        (JObj [(''hash'', JStr ''op''), (''counter'', JNum 7), (''nonce'', JNull), (''level'', JNum 1)]) 0
     = createEventId (\<lambda>s. s) ''H''
        (JObj [(''id'', JNum 5), (''nonce'', JNull), (''counter'', JNum 7), (''hash'', JStr ''op'')]) 0"
  using createEventId_depends_only_on_identity_fields
    [of "[(''hash'', JStr ''op''), (''counter'', JNum 7), (''nonce'', JNull), (''level'', JNum 1)]"
        "[(''id'', JNum 5), (''nonce'', JNull), (''counter'', JNum 7), (''hash'', JStr ''op'')]"
        "\<lambda>s. s" "''H''" 0]
  by simp

text \<open>
  C2. On an operation record \<open>createEventId\<close> throws the precondition error exactly when
  one of \<open>hash\<close>, \<open>counter\<close>, \<open>nonce\<close> is missing, it throws nothing else, and it
  returns the digest of the identity string exactly when all three are present; a nonce
  that is present and null counts as present.
\<close>

theorem createEventId_fails_iff_field_missing:
  "(createEventId mh h (JObj fs) i = Inl PreconditionError
      \<longleftrightarrow> (map_of fs ''hash'' = None \<or> map_of fs ''counter'' = None \<or> map_of fs ''nonce'' = None))
   \<and> ((\<exists>e. createEventId mh h (JObj fs) i = Inl e)
      \<longleftrightarrow> (map_of fs ''hash'' = None \<or> map_of fs ''counter'' = None \<or> map_of fs ''nonce'' = None))
   \<and> (createEventId mh h (JObj fs) i = Inr (mh (eventIdInput h (JObj fs) i))
      \<longleftrightarrow> (map_of fs ''hash'' \<noteq> None \<and> map_of fs ''counter'' \<noteq> None \<and> map_of fs ''nonce'' \<noteq> None))"
  by (simp add: createEventId_obj)

theorem createEventId_fails_iff_field_missing_witness:
  "createEventId (\<lambda>s. s) ''H'' (JObj [(''hash'', JStr ''op''), (''counter'', JNum 7), (''nonce'', JNull)]) 0
     = Inr ''H:op:7:unset:0''
   \<and> createEventId (\<lambda>s. s) ''H'' (JObj [(''hash'', JStr ''op''), (''counter'', JNum 7)]) 0
     = Inl PreconditionError"
  using createEventId_fails_iff_field_missing
    [of "\<lambda>s. s" "''H''" "[(''hash'', JStr ''op''), (''counter'', JNum 7), (''nonce'', JNull)]" 0]
    createEventId_fails_iff_field_missing
    [of "\<lambda>s. s" "''H''" "[(''hash'', JStr ''op''), (''counter'', JNum 7)]" 0]
  by (simp add: eventIdInput_def int_to_string_def nat_to_string.simps digit_char_def)

text \<open>
  The identity string of an operation with a null nonce differs from that of the
  otherwise identical operation with the nonce 0: the first carries the sentinel
  \<open>unset\<close> where the second carries the digit 0. Both ids are the digest of their
  identity string, so they coincide exactly when the digest maps the two strings to the
  same value.
\<close>

lemma eventIdInput_null_nonce_differs_from_zero:
  assumes "map_of fsN ''hash'' = Some hv" and "map_of fsZ ''hash'' = Some hv"
    and "map_of fsN ''counter'' = Some cv" and "map_of fsZ ''counter'' = Some cv"
    and "map_of fsN ''nonce'' = Some JNull" and "map_of fsZ ''nonce'' = Some (JNum 0)"
  shows "eventIdInput h (JObj fsN) i \<noteq> eventIdInput h (JObj fsZ) i
    \<and> createEventId mh h (JObj fsN) i = Inr (mh (eventIdInput h (JObj fsN) i))
    \<and> createEventId mh h (JObj fsZ) i = Inr (mh (eventIdInput h (JObj fsZ) i))
    \<and> (createEventId mh h (JObj fsN) i = createEventId mh h (JObj fsZ) i
         \<longleftrightarrow> mh (eventIdInput h (JObj fsN) i) = mh (eventIdInput h (JObj fsZ) i))"
proof -
  have pre: "eventIdInput h (JObj fsN) i \<noteq> eventIdInput h (JObj fsZ) i"
    using assms by (simp add: eventIdInput_def int_to_string_def nat_to_string_0)
  moreover have "createEventId mh h (JObj fsN) i = Inr (mh (eventIdInput h (JObj fsN) i))"
    using assms by (simp add: createEventId_obj)
  moreover have "createEventId mh h (JObj fsZ) i = Inr (mh (eventIdInput h (JObj fsZ) i))"
    using assms by (simp add: createEventId_obj)
  ultimately show ?thesis by simp
qed

section \<open>Properties of the pattern matcher\<close>

lemma strictEq_JStr: "strictEq a (JStr v) \<longleftrightarrow> a = JStr v"
  by (cases a) auto

lemma strictEq_JNum: "strictEq a (JNum n) \<longleftrightarrow> a = JNum n"
  by (cases a) auto

lemma lodash_get_two_segments:
  assumes "map_of fs (a @ ''.'' @ b) = None" and "CHR ''.'' \<notin> set a" and "CHR ''.'' \<notin> set b"
  shows "lodash_get (JObj fs) (a @ ''.'' @ b) = getProp (getProp (JObj fs) a) b"
proof -
  have nodot: "\<And>s. CHR ''.'' \<notin> set s \<Longrightarrow> stringToPath s = [s]"
    subgoal for s by (induction s) auto
    done
  have split: "\<And>s t. CHR ''.'' \<notin> set s \<Longrightarrow> stringToPath (s @ CHR ''.'' # t) = s # stringToPath t"
    subgoal for s t by (induction s) auto
    done
  have "castPath (a @ ''.'' @ b) (JObj fs) = [a, b]"
    using assms by (simp add: castPath_def split nodot)
  then show ?thesis
    by (cases "getProp (JObj fs) a") (simp_all add: lodash_get_def)
qed

lemma PATTERN_TO_PATH_resolves:
  assumes "map_of fs (PATTERN_TO_PATH k) = None"
  shows "lodash_get (JObj fs) (PATTERN_TO_PATH k) =
     (case k of
        Entrypoint \<Rightarrow> getProp (getProp (JObj fs) ''parameter'') ''entrypoint''
      | Target_address \<Rightarrow> getProp (getProp (JObj fs) ''target'') ''address'')"
proof (cases k)
  case Entrypoint
  then show ?thesis
    using assms lodash_get_two_segments [of fs "''parameter''" "''entrypoint''"] by simp
next
  case Target_address
  then show ?thesis
    using assms lodash_get_two_segments [of fs "''target''" "''address''"] by simp
qed

text \<open>
  C3. A transaction matches a pattern exactly when every attribute the pattern declares
  resolves, through \<open>PATTERN_TO_PATH\<close>, to the expected string; a declared attribute
  whose path is absent (resolves to undefined) makes the result false, never an error,
  and the empty pattern matches every transaction.
\<close>

theorem transactionMatchesPattern_iff_all_attributes:
  "(transactionMatchesPattern tx P
      \<longleftrightarrow> (\<forall>(k, v) \<in> set P. lodash_get tx (PATTERN_TO_PATH k) = JStr v))
   \<and> ((\<exists>(k, v) \<in> set P. lodash_get tx (PATTERN_TO_PATH k) = JUndef)
        \<longrightarrow> \<not> transactionMatchesPattern tx P)
   \<and> transactionMatchesPattern tx []"
  by (fastforce simp: transactionMatchesPattern_def list_all_iff strictEq_JStr)

theorem transactionMatchesPattern_iff_all_attributes_witness:
  "transactionMatchesPattern
     (JObj [(''parameter'', JObj [(''entrypoint'', JStr ''retract_ask'')]),
            (''target'', JObj [(''address'', JStr ''KT1'')])])
     [(Entrypoint, ''retract_ask''), (Target_address, ''KT1'')]
   \<and> lodash_get (JObj [(''parameter'', JObj [(''entrypoint'', JStr ''retract_ask'')])])
        (PATTERN_TO_PATH Target_address) = JUndef
   \<and> \<not> transactionMatchesPattern
     (JObj [(''parameter'', JObj [(''entrypoint'', JStr ''retract_ask'')])])
     [(Entrypoint, ''retract_ask''), (Target_address, ''KT1'')]"
  using transactionMatchesPattern_iff_all_attributes
    [of "JObj [(''parameter'', JObj [(''entrypoint'', JStr ''retract_ask'')]),
            (''target'', JObj [(''address'', JStr ''KT1'')])]"
        "[(Entrypoint, ''retract_ask''), (Target_address, ''KT1'')]"]
    transactionMatchesPattern_iff_all_attributes
    [of "JObj [(''parameter'', JObj [(''entrypoint'', JStr ''retract_ask'')])]"
        "[(Entrypoint, ''retract_ask''), (Target_address, ''KT1'')]"]
  by (simp add: lodash_get_def castPath_def)

section \<open>Properties of the bigmap diff index\<close>

lemma wfDiff_not_nullish: "wfDiff d \<Longrightarrow> \<not> nullish d \<and> \<not> nullish (getProp d ''content'')"
  by (cases d; cases "getProp d ''content''") (auto simp: wfDiff_def)

lemma isMatchingDiff_wf:
  assumes "wfDiff d"
  shows "isMatchingDiff d b p a key =
     Inr ((b = None \<or> getProp d ''bigmap'' = JNum (the b))
          \<and> getProp d ''path'' = JStr p
          \<and> getProp d ''action'' \<in> JStr ` set (actionsOf a)
          \<and> (\<not> truthy key \<or> strictEq (getProp (getProp d ''content'') ''key'') key))"
  using wfDiff_not_nullish [OF assms]
  by (cases b) (auto simp: isMatchingDiff_def strictEq_JStr strictEq_JNum)

lemma isMatchingDiff_True_key:
  assumes "isMatchingDiff d b p a (JStr k) = Inr True" and "k \<noteq> []"
  shows "getProp (getProp d ''content'') ''key'' = JStr k"
  using assms by (auto simp: isMatchingDiff_def strictEq_JStr split: if_splits)

lemma array_find_Some: "array_find P xs = Inr (Some x) \<Longrightarrow> x \<in> set xs \<and> P x = Inr True"
  by (induction xs) (auto split: sum.splits bool.splits)

lemma array_filter_Inr: "array_filter P xs = Inr r \<Longrightarrow> r = filter (\<lambda>x. P x = Inr True) xs"
  by (induction xs arbitrary: r) (auto split: sum.splits bool.splits)

lemma array_filter_total:
  "\<forall>x \<in> set xs. \<exists>b. P x = Inr b \<Longrightarrow> array_filter P xs = Inr (filter (\<lambda>x. P x = Inr True) xs)"
  by (induction xs) (auto split: sum.splits)

lemma array_find_total:
  "\<forall>x \<in> set xs. \<exists>b. P x = Inr b \<Longrightarrow>
     array_find P xs = Inr (case filter (\<lambda>x. P x = Inr True) xs of [] \<Rightarrow> None | x # _ \<Rightarrow> Some x)"
  by (induction xs) (auto split: sum.splits bool.splits)

text \<open>
  The key is tested for truthiness, so the empty string counts as no key: a diff whose
  key is \<open>7\<close> answers the query for the key \<open>''\<close>.
\<close>

theorem empty_key_matches_any_key:
  "isMatchingDiff (askDiff ''7'') (Some 574013) ''asks'' (OneAction ''remove_key'') (JStr []) = Inr True
   \<and> getProp (getProp (askDiff ''7'') ''content'') ''key'' \<noteq> JStr []
   \<and> findDiff (JArr [askDiff ''7'']) (Some 574013) ''asks'' (OneAction ''remove_key'') (JStr [])
       = Inr (Some (askDiff ''7''))
   \<and> filterDiffs (JArr [askDiff ''7'']) (Some 574013) ''asks'' (OneAction ''remove_key'') (JStr [])
       = Inr [askDiff ''7'']"
  by (simp add: isMatchingDiff_def findDiff_def filterDiffs_def askDiff_def)

text \<open>
  C4 (amended). A well-formed diff satisfies a query exactly when the bigmap id is null or
  equal to the diff's, the path is equal, the action is one of the given actions, and the
  key is absent or the empty string or strictly equal to the key of the diff's content.
  Whenever a non-empty key is supplied, every diff that \<open>findDiff\<close> or \<open>filterDiffs\<close>
  returns has that key.
\<close>

theorem isMatchingDiff_query:
  "(wfDiff d \<longrightarrow>
      isMatchingDiff d b p a JUndef =
        Inr ((b = None \<or> getProp d ''bigmap'' = JNum (the b))
             \<and> getProp d ''path'' = JStr p
             \<and> getProp d ''action'' \<in> JStr ` set (actionsOf a))
      \<and> isMatchingDiff d b p a (JStr k) =
        Inr ((b = None \<or> getProp d ''bigmap'' = JNum (the b))
             \<and> getProp d ''path'' = JStr p
             \<and> getProp d ''action'' \<in> JStr ` set (actionsOf a)
             \<and> (k = [] \<or> getProp (getProp d ''content'') ''key'' = JStr k)))
   \<and> (k \<noteq> [] \<and> findDiff (JArr ds) b p a (JStr k) = Inr (Some x)
        \<longrightarrow> getProp (getProp x ''content'') ''key'' = JStr k)
   \<and> (k \<noteq> [] \<and> filterDiffs (JArr ds) b p a (JStr k) = Inr r
        \<longrightarrow> (\<forall>x \<in> set r. getProp (getProp x ''content'') ''key'' = JStr k))"
proof (intro conjI impI)
  assume "wfDiff d"
  then show "isMatchingDiff d b p a JUndef =
        Inr ((b = None \<or> getProp d ''bigmap'' = JNum (the b))
             \<and> getProp d ''path'' = JStr p
             \<and> getProp d ''action'' \<in> JStr ` set (actionsOf a))"
    by (simp add: isMatchingDiff_wf)
next
  assume "wfDiff d"
  then show "isMatchingDiff d b p a (JStr k) =
        Inr ((b = None \<or> getProp d ''bigmap'' = JNum (the b))
             \<and> getProp d ''path'' = JStr p
             \<and> getProp d ''action'' \<in> JStr ` set (actionsOf a)
             \<and> (k = [] \<or> getProp (getProp d ''content'') ''key'' = JStr k))"
    by (simp add: isMatchingDiff_wf strictEq_JStr)
next
  assume "k \<noteq> [] \<and> findDiff (JArr ds) b p a (JStr k) = Inr (Some x)"
  then show "getProp (getProp x ''content'') ''key'' = JStr k"
    by (auto simp: findDiff_def dest!: array_find_Some intro: isMatchingDiff_True_key)
next
  assume "k \<noteq> [] \<and> filterDiffs (JArr ds) b p a (JStr k) = Inr r"
  then show "\<forall>x \<in> set r. getProp (getProp x ''content'') ''key'' = JStr k"
    by (auto simp: filterDiffs_def dest!: array_filter_Inr intro: isMatchingDiff_True_key)
qed

theorem isMatchingDiff_query_witness:
  "wfDiff (askDiff ''9'')
   \<and> isMatchingDiff (askDiff ''9'') (Some 574013) ''asks'' (OneAction ''remove_key'') (JStr ''9'') = Inr True
   \<and> isMatchingDiff (askDiff ''9'') (Some 574013) ''asks'' (OneAction ''remove_key'') (JStr ''7'') = Inr False
   \<and> ''9'' \<noteq> []
   \<and> findDiff (JArr [askDiff ''7'', askDiff ''9'']) (Some 574013) ''asks'' (OneAction ''remove_key'') (JStr ''9'')
       = Inr (Some (askDiff ''9''))
   \<and> filterDiffs (JArr [askDiff ''7'', askDiff ''9'']) (Some 574013) ''asks'' (OneAction ''remove_key'') (JStr ''9'')
       = Inr [askDiff ''9'']
   \<and> getProp (getProp (askDiff ''9'') ''content'') ''key'' = JStr ''9''"
  using isMatchingDiff_query [where d = "askDiff ''9''" and b = "Some 574013" and p = "''asks''"
      and a = "OneAction ''remove_key''" and k = "''9''" and ds = "[askDiff ''7'', askDiff ''9'']"
      and x = "askDiff ''9''" and r = "[askDiff ''9'']"]
    isMatchingDiff_query [where d = "askDiff ''9''" and b = "Some 574013" and p = "''asks''"
      and a = "OneAction ''remove_key''" and k = "''7''" and ds = "[]"]
  by (simp add: wfDiff_def askDiff_def findDiff_def filterDiffs_def isMatchingDiff_def)

text \<open>
  C5. On a list of well-formed diffs \<open>filterDiffs\<close> returns exactly the diffs that
  satisfy the query, in their original order, \<open>findDiff\<close> returns the first of them, and
  nothing (the empty list) when no diff satisfies the query.
\<close>

theorem findDiff_is_first_of_filterDiffs:
  assumes "\<forall>d \<in> set D. wfDiff d"
  shows "filterDiffs (JArr D) b p a key
           = Inr (filter (\<lambda>d. isMatchingDiff d b p a key = Inr True) D)
    \<and> findDiff (JArr D) b p a key
           = Inr (case filter (\<lambda>d. isMatchingDiff d b p a key = Inr True) D of
                    [] \<Rightarrow> None | x # _ \<Rightarrow> Some x)
    \<and> subseq (filter (\<lambda>d. isMatchingDiff d b p a key = Inr True) D) D
    \<and> ((\<forall>d \<in> set D. isMatchingDiff d b p a key \<noteq> Inr True)
         \<longrightarrow> filterDiffs (JArr D) b p a key = Inr [] \<and> findDiff (JArr D) b p a key = Inr None)"
proof -
  have tot: "\<forall>d \<in> set D. \<exists>r. isMatchingDiff d b p a key = Inr r"
    using assms by (auto simp: isMatchingDiff_wf)
  have f1: "filterDiffs (JArr D) b p a key
           = Inr (filter (\<lambda>d. isMatchingDiff d b p a key = Inr True) D)"
    using array_filter_total [OF tot] by (simp add: filterDiffs_def)
  have f2: "findDiff (JArr D) b p a key
           = Inr (case filter (\<lambda>d. isMatchingDiff d b p a key = Inr True) D of
                    [] \<Rightarrow> None | x # _ \<Rightarrow> Some x)"
    using array_find_total [OF tot] by (simp add: findDiff_def)
  have f3: "(\<forall>d \<in> set D. isMatchingDiff d b p a key \<noteq> Inr True)
      \<Longrightarrow> filter (\<lambda>d. isMatchingDiff d b p a key = Inr True) D = []"
    by (simp add: filter_empty_conv)
  show ?thesis using f1 f2 f3 by auto
qed

theorem findDiff_is_first_of_filterDiffs_witness:
  "wfDiff (askDiff ''7'') \<and> wfDiff (askDiff ''9'')
   \<and> filterDiffs (JArr [askDiff ''7'', askDiff ''9'', askDiff ''7'']) None ''asks''
        (ManyActions [''remove_key'', ''update_key'']) (JStr ''7'') = Inr [askDiff ''7'', askDiff ''7'']
   \<and> findDiff (JArr [askDiff ''7'', askDiff ''9'', askDiff ''7'']) None ''asks''
        (ManyActions [''remove_key'', ''update_key'']) (JStr ''7'') = Inr (Some (askDiff ''7''))
   \<and> filterDiffs (JArr [askDiff ''7'', askDiff ''9'', askDiff ''7'']) None ''bids''
        (ManyActions [''remove_key'', ''update_key'']) (JStr ''7'') = Inr []
   \<and> findDiff (JArr [askDiff ''7'', askDiff ''9'', askDiff ''7'']) None ''bids''
        (ManyActions [''remove_key'', ''update_key'']) (JStr ''7'') = Inr None"
proof -
  have wf: "\<forall>d \<in> set [askDiff ''7'', askDiff ''9'', askDiff ''7'']. wfDiff d"
    by (simp add: wfDiff_def askDiff_def)
  have m7: "\<And>p. isMatchingDiff (askDiff ''7'') None p (ManyActions [''remove_key'', ''update_key'']) (JStr ''7'')
      = Inr (p = ''asks'')"
    by (auto simp: isMatchingDiff_def askDiff_def)
  have m9: "\<And>p. isMatchingDiff (askDiff ''9'') None p (ManyActions [''remove_key'', ''update_key'']) (JStr ''7'')
      = Inr False"
    by (simp add: isMatchingDiff_def askDiff_def)
  show ?thesis
    using wf
      findDiff_is_first_of_filterDiffs [OF wf, of None "''asks''"
        "ManyActions [''remove_key'', ''update_key'']" "JStr ''7''"]
      findDiff_is_first_of_filterDiffs [OF wf, of None "''bids''"
        "ManyActions [''remove_key'', ''update_key'']" "JStr ''7''"]
    by (simp add: m7 m9)
qed

section \<open>Properties of the paginated fetcher\<close>

lemma fetchPages_spec:
  assumes "\<forall>j. \<exists>ts. got j (j * perPage) perPage = Inr ts"
  shows "\<exists>n. fetchPages got perPage maxPages c acc
             = (n, Inr (acc @ concat (map (pageRecords got perPage) [c ..< c + n])))
     \<and> 1 \<le> n \<and> c + n \<le> max (c + 1) maxPages
     \<and> (\<forall>j. c \<le> j \<and> j < c + n - 1 \<longrightarrow> perPage \<le> length (pageRecords got perPage j))
     \<and> (length (pageRecords got perPage (c + n - 1)) < perPage \<or> maxPages \<le> c + n)"
  using assms
proof (induction got perPage maxPages c acc rule: fetchPages.induct)
  case (1 got perPage maxPages c acc)
  obtain ts where ts: "got c (c * perPage) perPage = Inr ts"
    using "1.prems" by blast
  have pr: "pageRecords got perPage c = ts"
    by (simp add: pageRecords_def ts)
  show ?case
  proof (cases "length ts < perPage \<or> \<not> c + 1 < maxPages")
    case True
    then have "fetchPages got perPage maxPages c acc = (1, Inr (acc @ ts))"
      by (subst fetchPages.simps) (auto simp: ts Let_def)
    with True pr show ?thesis
      by (intro exI [of _ 1]) auto
  next
    case False
    from "1.IH" [OF ts refl _ _ "1.prems"] False
    obtain n where n: "fetchPages got perPage maxPages (c + 1) (acc @ ts)
             = (n, Inr ((acc @ ts) @ concat (map (pageRecords got perPage) [c + 1 ..< c + 1 + n])))"
      and n1: "1 \<le> n" and n2: "c + 1 + n \<le> max (c + 1 + 1) maxPages"
      and n3: "\<forall>j. c + 1 \<le> j \<and> j < c + 1 + n - 1 \<longrightarrow> perPage \<le> length (pageRecords got perPage j)"
      and n4: "length (pageRecords got perPage (c + 1 + n - 1)) < perPage \<or> maxPages \<le> c + 1 + n"
      by auto
    have "fetchPages got perPage maxPages c acc
        = (case fetchPages got perPage maxPages (c + 1) (acc @ ts) of (n, r) \<Rightarrow> (Suc n, r))"
      using False by (subst fetchPages.simps) (simp add: ts Let_def)
    then have "fetchPages got perPage maxPages c acc
        = (Suc n, Inr ((acc @ ts) @ concat (map (pageRecords got perPage) [c + 1 ..< c + 1 + n])))"
      by (simp only: n prod.case)
    moreover have "[c ..< c + Suc n] = c # [c + 1 ..< c + 1 + n]"
      by (simp add: upt_conv_Cons)
    moreover have "\<forall>j. c \<le> j \<and> j < c + Suc n - 1 \<longrightarrow> perPage \<le> length (pageRecords got perPage j)"
    proof (intro allI impI)
      fix j assume j: "c \<le> j \<and> j < c + Suc n - 1"
      show "perPage \<le> length (pageRecords got perPage j)"
      proof (cases "j = c")
        case True
        then show ?thesis using False pr by simp
      next
        case False
        then show ?thesis using j n3 by simp
      qed
    qed
    ultimately show ?thesis
      using n1 n2 n4 False pr by (intro exI [of _ "Suc n"]) auto
  qed
qed

lemma baseUniq_keys_fresh: "x \<in> set (baseUniq f seen xs) \<Longrightarrow> f x \<notin> set seen"
  by (induction xs arbitrary: seen) (fastforce split: if_splits)+

lemma baseUniq_distinct: "distinct (map f (baseUniq f seen xs))"
proof (induction xs arbitrary: seen)
  case Nil
  then show ?case by simp
next
  case (Cons x xs)
  have "f x \<notin> f ` set (baseUniq f (seen @ [f x]) xs)"
  proof
    assume "f x \<in> f ` set (baseUniq f (seen @ [f x]) xs)"
    then obtain y where y: "y \<in> set (baseUniq f (seen @ [f x]) xs)" "f y = f x"
      by auto
    from baseUniq_keys_fresh [OF y(1)] have "f y \<notin> set (seen @ [f x])" .
    with y(2) show False by simp
  qed
  with Cons show ?case by simp
qed

lemma baseUniq_subseq: "subseq (baseUniq f seen xs) xs"
  by (induction xs arbitrary: seen) auto

lemma baseUniq_find:
  "find (\<lambda>x. f x = k) (baseUniq f seen xs) =
     (if k \<in> set seen then None else find (\<lambda>x. f x = k) xs)"
  by (induction xs arbitrary: seen) (auto simp: find_None_iff dest: baseUniq_keys_fresh)

lemma baseUniq_id:
  "distinct (map f xs) \<Longrightarrow> f ` set xs \<inter> set seen = {} \<Longrightarrow> baseUniq f seen xs = xs"
  by (induction xs arbitrary: seen) auto

lemma uniqBy_id: "distinct (map f xs) \<Longrightarrow> uniqBy f xs = xs"
  by (simp add: uniqBy_def baseUniq_id)

lemma recordId_numbered: "recordId (numbered i) = JNum (int i)"
  by (simp add: recordId_def numbered_def)

lemma distinct_numbered: "distinct (map recordId (map numbered [a ..< b]))"
  by (simp add: distinct_map recordId_numbered inj_on_def comp_def)

lemma pageRecords_pagedSource:
  "pageRecords (pagedSource mk m) perPage j = map mk [j * perPage ..< min (j * perPage + perPage) m]"
  by (simp add: pageRecords_def pagedSource_def)

lemma pageRecords_fullSource:
  "pageRecords (fullSource mk) perPage j = map mk [j * perPage ..< j * perPage + perPage]"
  by (simp add: pageRecords_def fullSource_def)

lemma fetchPages_continue:
  assumes "got c (c * perPage) perPage = Inr ts" and "\<not> length ts < perPage" and "c + 1 < maxPages"
  shows "fetchPages got perPage maxPages c acc
    = (case fetchPages got perPage maxPages (c + 1) (acc @ ts) of (n, r) \<Rightarrow> (Suc n, r))"
  using assms by (subst fetchPages.simps) (simp add: Let_def)

lemma fetchPages_stop:
  assumes "got c (c * perPage) perPage = Inr ts" and "length ts < perPage \<or> \<not> c + 1 < maxPages"
  shows "fetchPages got perPage maxPages c acc = (1, Inr (acc @ ts))"
  using assms by (subst fetchPages.simps) (auto simp: Let_def)

lemma fetch_three_pages:
  "fetchPages (pagedSource numbered 4843) 2000 20 0 [] = (3, Inr (map numbered [0 ..< 4843]))"
proof -
  have "[0 ..< 2000 + 2843] = [0 ..< 2000] @ [2000 ..< 2000 + (2843::nat)]"
    by (rule upt_add_eq_append) simp
  moreover have "[2000 ..< 2000 + 2000 + 843] = [2000 ..< 2000 + 2000] @ [2000 + 2000 ..< 2000 + 2000 + (843::nat)]"
    by (rule upt_add_eq_append) simp
  ultimately have a: "[0 ..< 4843] = [0 ..< 2000] @ [2000 ..< 4000] @ [4000 ..< (4843::nat)]"
    by (simp del: upt_rec_numeral)
  have p2: "fetchPages (pagedSource numbered 4843) 2000 20 (0 + 1 + 1) (([] @ map numbered [0 ..< 2000]) @ map numbered [2000 ..< 4000])
      = (1, Inr ((([] @ map numbered [0 ..< 2000]) @ map numbered [2000 ..< 4000]) @ map numbered [4000 ..< 4843]))"
    by (rule fetchPages_stop) (simp_all add: pagedSource_def del: upt_rec_numeral)
  have p1: "fetchPages (pagedSource numbered 4843) 2000 20 (0 + 1) ([] @ map numbered [0 ..< 2000])
      = (case fetchPages (pagedSource numbered 4843) 2000 20 (0 + 1 + 1)
           (([] @ map numbered [0 ..< 2000]) @ map numbered [2000 ..< 4000]) of (n, r) \<Rightarrow> (Suc n, r))"
    by (rule fetchPages_continue) (simp_all add: pagedSource_def del: upt_rec_numeral)
  have p0: "fetchPages (pagedSource numbered 4843) 2000 20 0 []
      = (case fetchPages (pagedSource numbered 4843) 2000 20 (0 + 1)
           ([] @ map numbered [0 ..< 2000]) of (n, r) \<Rightarrow> (Suc n, r))"
    by (rule fetchPages_continue) (simp_all add: pagedSource_def del: upt_rec_numeral)
  show ?thesis
    by (simp only: p0 p1 p2 prod.case a) (simp del: upt_rec_numeral)
qed

lemma fetchPages_spec0:
  assumes "\<forall>j. \<exists>ts. got j (j * perPage) perPage = Inr ts"
  obtains n where "fetchPages got perPage maxPages 0 []
             = (n, Inr (concat (map (pageRecords got perPage) [0 ..< n])))"
     and "1 \<le> n" and "n \<le> max 1 maxPages"
     and "\<forall>j. j < n - 1 \<longrightarrow> perPage \<le> length (pageRecords got perPage j)"
     and "length (pageRecords got perPage (n - 1)) < perPage \<or> maxPages \<le> n"
proof -
  from fetchPages_spec [where got = got and perPage = perPage
      and maxPages = maxPages and c = 0 and acc = "[]", OF assms]
  have "\<exists>n. fetchPages got perPage maxPages 0 []
             = (n, Inr (concat (map (pageRecords got perPage) [0 ..< n])))
     \<and> 1 \<le> n \<and> n \<le> max 1 maxPages
     \<and> (\<forall>j. j < n - 1 \<longrightarrow> perPage \<le> length (pageRecords got perPage j))
     \<and> (length (pageRecords got perPage (n - 1)) < perPage \<or> maxPages \<le> n)"
    by simp
  then show thesis
    by (elim exE conjE) (rule that)
qed

lemma fullSource_requests:
  "fst (fetchPages (fullSource mk) perPage maxPages 0 []) = max 1 maxPages"
proof -
  have ok: "\<forall>j. \<exists>ts. fullSource mk j (j * perPage) perPage = Inr ts"
    by (simp add: fullSource_def)
  obtain n where a: "fetchPages (fullSource mk) perPage maxPages 0 []
       = (n, Inr (concat (map (pageRecords (fullSource mk) perPage) [0 ..< n])))"
    and b: "1 \<le> n" and c: "n \<le> max 1 maxPages"
    and d: "length (pageRecords (fullSource mk) perPage (n - 1)) < perPage \<or> maxPages \<le> n"
    by (rule fetchPages_spec0 [where got = "fullSource mk" and perPage = perPage
      and maxPages = maxPages, OF ok])
  have "length (pageRecords (fullSource mk) perPage (n - 1)) = perPage"
    by (simp add: pageRecords_fullSource)
  with d have e: "maxPages \<le> n" by simp
  have "fst (fetchPages (fullSource mk) perPage maxPages 0 []) = n"
    by (simp only: a fst_conv)
  then show ?thesis using b c e by simp
qed

lemma fst_getTransactions: "fst (getTransactions got perPage maxPages) = fst (fetchPages got perPage maxPages 0 [])"
  by (simp add: getTransactions_def split: prod.splits sum.splits)

lemma getOriginations_eq: "getOriginations got perPage maxPages = getTransactions got perPage maxPages"
  by (simp add: getTransactions_def getOriginations_def)

lemma getTransactions_Inr:
  "fetchPages got perPage maxPages 0 [] = (n, Inr all) \<Longrightarrow>
     getTransactions got perPage maxPages = (n, Inr (uniqBy recordId all))"
  by (simp add: getTransactions_def)

lemma overlap_fetch:
  "fetchPages overlapSource 2 20 0 []
     = (3, Inr [numbered 0, numbered 1, numbered 1, numbered 2])"
proof -
  have p2: "fetchPages overlapSource 2 20 (0 + 1 + 1) (([] @ [numbered 0, numbered 1]) @ [numbered 1, numbered 2])
      = (1, Inr ((([] @ [numbered 0, numbered 1]) @ [numbered 1, numbered 2]) @ []))"
    by (rule fetchPages_stop) (simp_all add: overlapSource_def)
  have p1: "fetchPages overlapSource 2 20 (0 + 1) ([] @ [numbered 0, numbered 1])
      = (case fetchPages overlapSource 2 20 (0 + 1 + 1)
           (([] @ [numbered 0, numbered 1]) @ [numbered 1, numbered 2]) of (n, r) \<Rightarrow> (Suc n, r))"
    by (rule fetchPages_continue) (simp_all add: overlapSource_def)
  have p0: "fetchPages overlapSource 2 20 0 []
      = (case fetchPages overlapSource 2 20 (0 + 1) ([] @ [numbered 0, numbered 1]) of
           (n, r) \<Rightarrow> (Suc n, r))"
    by (rule fetchPages_continue) (simp_all add: overlapSource_def)
  show ?thesis
    by (simp only: p0 p1 p2 prod.case) simp
qed

text \<open>
  The loop is a do-while: with \<open>maxPages = 0\<close> one request is still issued.
\<close>

theorem zero_maxPages_still_issues_a_request:
  "fst (getTransactions (fullSource numbered) 1 0) = 1
   \<and> fst (getTransactions (fullSource numbered) 1 0) \<noteq> 0
   \<and> fst (getOriginations (fullSource numbered) 1 0) \<noteq> 0"
  by (simp add: getOriginations_eq fst_getTransactions fullSource_requests)

text \<open>
  C6 (amended). When no request fails, \<open>getTransactions\<close> and \<open>getOriginations\<close> issue
  requests for the pages \<open>0, 1, \<dots>, n - 1\<close> in turn, where every page before the last is
  full and the last page is short or \<open>n\<close> is \<open>max 1 maxPages\<close>: the first request is
  always issued. Pages of 2000, 2000 and 843 records with \<open>perPage = 2000\<close> take 3
  requests; a source whose pages are always full takes \<open>max 1 maxPages\<close> requests.
\<close>

theorem getTransactions_request_count:
  "((\<forall>j. \<exists>ts. got j (j * perPage) perPage = Inr ts) \<longrightarrow>
      (\<exists>n r. getTransactions got perPage maxPages = (n, Inr r)
         \<and> fst (getOriginations got perPage maxPages) = n
         \<and> 1 \<le> n \<and> n \<le> max 1 maxPages
         \<and> (\<forall>j. j < n - 1 \<longrightarrow> perPage \<le> length (pageRecords got perPage j))
         \<and> (length (pageRecords got perPage (n - 1)) < perPage \<or> n = max 1 maxPages)))
   \<and> fst (getTransactions (pagedSource numbered 4843) 2000 20) = 3
   \<and> fst (getOriginations (pagedSource numbered 4843) 2000 20) = 3
   \<and> fst (getTransactions (fullSource mk) perPage maxPages) = max 1 maxPages
   \<and> fst (getOriginations (fullSource mk) perPage maxPages) = max 1 maxPages"
proof (intro conjI impI)
  assume ok: "\<forall>j. \<exists>ts. got j (j * perPage) perPage = Inr ts"
  obtain n where a: "fetchPages got perPage maxPages 0 []
       = (n, Inr (concat (map (pageRecords got perPage) [0 ..< n])))"
    and b: "1 \<le> n" and c: "n \<le> max 1 maxPages"
    and f: "\<forall>j. j < n - 1 \<longrightarrow> perPage \<le> length (pageRecords got perPage j)"
    and d: "length (pageRecords got perPage (n - 1)) < perPage \<or> maxPages \<le> n"
    by (rule fetchPages_spec0 [where got = got and perPage = perPage
      and maxPages = maxPages, OF ok])
  from d b c have d': "length (pageRecords got perPage (n - 1)) < perPage \<or> n = max 1 maxPages"
    by auto
  have g: "getTransactions got perPage maxPages
      = (n, Inr (uniqBy recordId (concat (map (pageRecords got perPage) [0 ..< n]))))"
    by (rule getTransactions_Inr [OF a])
  have h: "fst (getOriginations got perPage maxPages) = n"
    by (simp only: getOriginations_eq g fst_conv)
  show "\<exists>n r. getTransactions got perPage maxPages = (n, Inr r)
         \<and> fst (getOriginations got perPage maxPages) = n
         \<and> 1 \<le> n \<and> n \<le> max 1 maxPages
         \<and> (\<forall>j. j < n - 1 \<longrightarrow> perPage \<le> length (pageRecords got perPage j))
         \<and> (length (pageRecords got perPage (n - 1)) < perPage \<or> n = max 1 maxPages)"
    using g h b c f d' by blast
next
  show "fst (getTransactions (pagedSource numbered 4843) 2000 20) = 3"
    by (simp only: fst_getTransactions fetch_three_pages fst_conv)
  show "fst (getOriginations (pagedSource numbered 4843) 2000 20) = 3"
    by (simp only: getOriginations_eq fst_getTransactions fetch_three_pages fst_conv)
  show "fst (getTransactions (fullSource mk) perPage maxPages) = max 1 maxPages"
    by (simp only: fst_getTransactions fullSource_requests)
  show "fst (getOriginations (fullSource mk) perPage maxPages) = max 1 maxPages"
    by (simp only: getOriginations_eq fst_getTransactions fullSource_requests)
qed

theorem getTransactions_request_count_witness:
  "(\<forall>j. \<exists>ts. overlapSource j (j * 2) 2 = Inr ts)
   \<and> (\<exists>n r. getTransactions overlapSource 2 20 = (n, Inr r) \<and> 1 \<le> n \<and> n \<le> 20)
   \<and> fst (getTransactions overlapSource 2 20) = 3"
proof -
  have h: "\<forall>j. \<exists>ts. overlapSource j (j * 2) 2 = Inr ts"
    by (simp add: overlapSource_def)
  from getTransactions_request_count [of overlapSource 2 20, THEN conjunct1, THEN mp, OF h]
  obtain n r where "getTransactions overlapSource 2 20 = (n, Inr r)" and "1 \<le> n" and "n \<le> max 1 20"
    by (elim exE conjE)
  then have "\<exists>n r. getTransactions overlapSource 2 20 = (n, Inr r) \<and> 1 \<le> n \<and> n \<le> 20"
    by auto
  moreover have "fst (getTransactions overlapSource 2 20) = 3"
    by (simp only: fst_getTransactions overlap_fetch fst_conv)
  ultimately show ?thesis using h by blast
qed

text \<open>
  C7. When no request fails, the list returned by \<open>getTransactions\<close> and
  \<open>getOriginations\<close> has no two records with the same id, is a subsequence of the
  fetched records, and holds for every id the first fetched record with that id. When
  the second page repeats the last record of the first, that record appears once; the
  fetch of 2000, 2000 and 843 records with distinct ids returns all 4843 records.
\<close>

theorem getTransactions_dedup_first_occurrence:
  "((\<forall>j. \<exists>ts. got j (j * perPage) perPage = Inr ts) \<longrightarrow>
      (\<exists>n r. getTransactions got perPage maxPages = (n, Inr r)
         \<and> getOriginations got perPage maxPages = (n, Inr r)
         \<and> distinct (map recordId r)
         \<and> subseq r (concat (map (pageRecords got perPage) [0 ..< n]))
         \<and> (\<forall>k. find (\<lambda>x. recordId x = k) r
                 = find (\<lambda>x. recordId x = k) (concat (map (pageRecords got perPage) [0 ..< n])))))
   \<and> snd (getTransactions overlapSource 2 20) = Inr [numbered 0, numbered 1, numbered 2]
   \<and> snd (getTransactions (pagedSource numbered 4843) 2000 20) = Inr (map numbered [0 ..< 4843])
   \<and> length (map numbered [0 ..< 4843]) = 4843"
proof (intro conjI impI)
  assume ok: "\<forall>j. \<exists>ts. got j (j * perPage) perPage = Inr ts"
  obtain n where a: "fetchPages got perPage maxPages 0 []
       = (n, Inr (concat (map (pageRecords got perPage) [0 ..< n])))"
    by (rule fetchPages_spec0 [where got = got and perPage = perPage
      and maxPages = maxPages, OF ok])
  define all where "all = concat (map (pageRecords got perPage) [0 ..< n])"
  have g: "getTransactions got perPage maxPages = (n, Inr (uniqBy recordId all))"
    unfolding all_def by (rule getTransactions_Inr [OF a])
  have g': "getOriginations got perPage maxPages = (n, Inr (uniqBy recordId all))"
    by (simp only: getOriginations_eq g)
  have d: "distinct (map recordId (uniqBy recordId all))"
    by (simp add: uniqBy_def baseUniq_distinct)
  have s: "subseq (uniqBy recordId all) all"
    by (simp add: uniqBy_def baseUniq_subseq)
  have f: "\<forall>k. find (\<lambda>x. recordId x = k) (uniqBy recordId all) = find (\<lambda>x. recordId x = k) all"
    by (simp add: uniqBy_def baseUniq_find)
  show "\<exists>n r. getTransactions got perPage maxPages = (n, Inr r)
         \<and> getOriginations got perPage maxPages = (n, Inr r)
         \<and> distinct (map recordId r)
         \<and> subseq r (concat (map (pageRecords got perPage) [0 ..< n]))
         \<and> (\<forall>k. find (\<lambda>x. recordId x = k) r
                 = find (\<lambda>x. recordId x = k) (concat (map (pageRecords got perPage) [0 ..< n])))"
    using g g' d s f unfolding all_def by blast
next
  have "getTransactions overlapSource 2 20
      = (3, Inr (uniqBy recordId [numbered 0, numbered 1, numbered 1, numbered 2]))"
    by (rule getTransactions_Inr [OF overlap_fetch])
  then show "snd (getTransactions overlapSource 2 20) = Inr [numbered 0, numbered 1, numbered 2]"
    by (simp add: uniqBy_def recordId_numbered)
next
  have "getTransactions (pagedSource numbered 4843) 2000 20
      = (3, Inr (uniqBy recordId (map numbered [0 ..< 4843])))"
    by (rule getTransactions_Inr [OF fetch_three_pages])
  then show "snd (getTransactions (pagedSource numbered 4843) 2000 20) = Inr (map numbered [0 ..< 4843])"
    by (simp only: uniqBy_id [OF distinct_numbered] snd_conv)
next
  show "length (map numbered [0 ..< 4843]) = 4843"
    by (simp del: upt_rec_numeral)
qed

theorem getTransactions_dedup_first_occurrence_witness:
  "(\<forall>j. \<exists>ts. overlapSource j (j * 2) 2 = Inr ts)
   \<and> (\<exists>n r. getTransactions overlapSource 2 20 = (n, Inr r) \<and> distinct (map recordId r))
   \<and> getTransactions overlapSource 2 20 = (3, Inr [numbered 0, numbered 1, numbered 2])"
proof -
  have h: "\<forall>j. \<exists>ts. overlapSource j (j * 2) 2 = Inr ts"
    by (simp add: overlapSource_def)
  from getTransactions_dedup_first_occurrence [of overlapSource 2 20, THEN conjunct1, THEN mp, OF h]
  obtain n r where "getTransactions overlapSource 2 20 = (n, Inr r)" and "distinct (map recordId r)"
    by (elim exE conjE)
  then have "\<exists>n r. getTransactions overlapSource 2 20 = (n, Inr r) \<and> distinct (map recordId r)"
    by blast
  moreover have "getTransactions overlapSource 2 20 = (3, Inr [numbered 0, numbered 1, numbered 2])"
    using getTransactions_Inr [OF overlap_fetch] by (simp add: uniqBy_def recordId_numbered)
  ultimately show ?thesis using h by blast
qed

section \<open>Properties of the handlers\<close>

lemma first_of_filter_unique:
  assumes "d \<in> set ds" and "P d" and "\<forall>d' \<in> set ds. P d' \<longrightarrow> d' = d"
  shows "(case filter P ds of [] \<Rightarrow> None | x # _ \<Rightarrow> Some x) = Some d"
proof (cases "filter P ds")
  case Nil
  then show ?thesis using assms(1,2) by (simp add: filter_empty_conv)
next
  case (Cons x xs)
  then have "x \<in> set (filter P ds)" by simp
  then have "x = d" using assms(3) by simp
  with Cons show ?thesis by simp
qed

text \<open>
  C10. The handler of 8BID\_24X24\_MONOCHROME\_CANCEL\_SWAP passes \<open>transaction.id\<close> to
  \<open>createEventId\<close>: for every transaction whose id is a number, \<open>exec\<close> throws and no
  event is returned.
\<close>

theorem cancel_swap_exec_always_throws:
  assumes "getProp transaction ''id'' = JNum n"
  shows "cancel_swap_exec mh V transaction = Inl TypeError"
proof -
  have "createEventId mh EVENT_TYPE_8BID_24X24_MONOCHROME_CANCEL_SWAP (getProp transaction ''id'') 0
      = Inl TypeError"
    by (simp add: assms createEventId_def hasIdentityFields_def)
  moreover have "\<And>d b p a k e. isMatchingDiff d b p a k = Inl e \<Longrightarrow> e = TypeError"
    by (auto simp: isMatchingDiff_def split: if_splits)
  then have "\<And>ds b p a k e. array_find (\<lambda>d. isMatchingDiff d b p a k) ds = Inl e \<Longrightarrow> e = TypeError"
    subgoal for ds b p a k e
      by (induction ds) (auto split: sum.splits bool.splits)
    done
  then have "\<And>ds b p a k e. findDiff ds b p a k = Inl e \<Longrightarrow> e = TypeError"
    by (auto simp: findDiff_def split: jv.splits)
  ultimately show ?thesis
    by (auto simp: cancel_swap_exec_def Let_def split: sum.splits)
qed

theorem cancel_swap_exec_always_throws_witness:
  "getProp exampleCancelSwap ''id'' = JNum 42
   \<and> findDiff (getProp exampleCancelSwap ''diffs'') (Some 128202) ''swap_list''
        (OneAction ''update_key'') (lodash_get exampleCancelSwap ''parameter.value'')
      = Inr (Some (swapDiff ''9''))
   \<and> cancel_swap_exec (\<lambda>s. s) exampleValidators exampleCancelSwap = Inl TypeError"
  using cancel_swap_exec_always_throws [of exampleCancelSwap 42 "\<lambda>s. s" exampleValidators]
  by (simp add: exampleCancelSwap_def swapDiff_def findDiff_def isMatchingDiff_def
      lodash_get_def castPath_def)

text \<open>
  C8. A transaction that matches the accept pattern of the retract-ask handler, carries
  the identity fields, and whose diffs hold one \<open>remove_key\<close> diff on bigmap 574013 at
  path \<open>asks\<close> with the key of its parameter value, yields one event when the fields
  pass the validators of the schema: its \<open>ask_id\<close> is that key, and its id is the value
  that \<open>createEventId\<close> computes from the transaction.
\<close>

theorem retract_ask_produces_one_event:
  assumes tx: "transaction = JObj fs"
    and ids: "map_of fs ''hash'' \<noteq> None" "map_of fs ''counter'' \<noteq> None" "map_of fs ''nonce'' \<noteq> None"
    and accept: "transactionMatchesPattern transaction (retract_ask_accept marketplace)"
    and param: "lodash_get transaction ''parameter.value'' = JStr k"
    and diffs: "lodash_get transaction ''diffs'' = JArr ds"
    and wf: "\<forall>d' \<in> set ds. wfDiff d'"
    and d_in: "d \<in> set ds"
    and d_bigmap: "getProp d ''bigmap'' = JNum 574013"
    and d_path: "getProp d ''path'' = JStr ''asks''"
    and d_action: "getProp d ''action'' = JStr ''remove_key''"
    and d_key: "getProp (getProp d ''content'') ''key'' = JStr k"
    and only: "\<forall>d' \<in> set ds.
        getProp d' ''bigmap'' = JNum 574013 \<and> getProp d' ''path'' = JStr ''asks''
        \<and> getProp d' ''action'' = JStr ''remove_key''
        \<and> (k = [] \<or> getProp (getProp d' ''content'') ''key'' = JStr k) \<longrightarrow> d' = d"
    and v_opid: "PgBigInt V (JStr (toString (getProp transaction ''id'')))"
    and v_time: "IsoDateString V (getProp transaction ''timestamp'')"
    and v_level: "PositiveInteger V (getProp transaction ''level'')"
    and v_fa2: "ContractAddress V (lodash_get d ''content.value.token.address'')"
    and v_token: "isString (lodash_get d ''content.value.token.token_id'')"
    and v_hash: "isString (getProp transaction ''hash'')"
    and v_seller: "TezosAddress V (lodash_get d ''content.value.creator'')"
    and v_ask: "PgBigInt V (JStr k)"
  shows "\<exists>ev. retract_ask_exec mh V transaction = Inr ev
    \<and> ra_ask_id ev = JStr k
    \<and> ra_type ev = EVENT_TYPE_OBJKT_RETRACT_ASK_V3
    \<and> createEventId mh EVENT_TYPE_OBJKT_RETRACT_ASK_V3 transaction 0 = Inr (ra_id ev)
    \<and> ra_id ev = mh (eventIdInput EVENT_TYPE_OBJKT_RETRACT_ASK_V3 transaction 0)"
proof -
  let ?P = "\<lambda>d'. isMatchingDiff d' (Some 574013) ''asks'' (OneAction ''remove_key'') (JStr k) = Inr True"
  have P_iff: "\<And>d'. d' \<in> set ds \<Longrightarrow> ?P d' \<longleftrightarrow>
      (getProp d' ''bigmap'' = JNum 574013 \<and> getProp d' ''path'' = JStr ''asks''
        \<and> getProp d' ''action'' = JStr ''remove_key''
        \<and> (k = [] \<or> getProp (getProp d' ''content'') ''key'' = JStr k))"
    using wf by (simp add: isMatchingDiff_wf strictEq_JStr)
  have tot: "\<forall>d' \<in> set ds. \<exists>r. isMatchingDiff d' (Some 574013) ''asks'' (OneAction ''remove_key'') (JStr k) = Inr r"
    using wf by (simp add: isMatchingDiff_wf)
  have Pd: "?P d"
    using P_iff [OF d_in] d_bigmap d_path d_action d_key by simp
  have uniq: "\<forall>d' \<in> set ds. ?P d' \<longrightarrow> d' = d"
    using only P_iff by blast
  have found: "findDiff (JArr ds) (Some 574013) ''asks'' (OneAction ''remove_key'') (JStr k) = Inr (Some d)"
    using array_find_total [OF tot] first_of_filter_unique [of d ds ?P, OF d_in Pd uniq]
    by (simp add: findDiff_def)
  have cid: "createEventId mh EVENT_TYPE_OBJKT_RETRACT_ASK_V3 transaction 0
      = Inr (mh (eventIdInput EVENT_TYPE_OBJKT_RETRACT_ASK_V3 transaction 0))"
    using ids by (simp add: tx createEventId_obj)
  have "retract_ask_exec mh V transaction =
      Inr \<lparr> ra_id = mh (eventIdInput EVENT_TYPE_OBJKT_RETRACT_ASK_V3 transaction 0),
            ra_type = EVENT_TYPE_OBJKT_RETRACT_ASK_V3,
            ra_opid = toString (getProp transaction ''id''),
            ra_ophash = getProp transaction ''hash'',
            ra_level = getProp transaction ''level'',
            ra_timestamp = getProp transaction ''timestamp'',
            ra_fa2_address = lodash_get d ''content.value.token.address'',
            ra_seller_address = lodash_get d ''content.value.creator'',
            ra_token_id = lodash_get d ''content.value.token.token_id'',
            ra_ask_id = JStr k \<rparr>"
    using v_opid v_time v_level v_fa2 v_token v_hash v_seller v_ask
    by (simp add: retract_ask_exec_def param diffs found cid diffValue_def
        ObjktRetractAskV3EventSchema_def)
  then show ?thesis using cid by simp
qed

theorem retract_ask_produces_one_event_witness:
  "transactionMatchesPattern exampleRetractAsk (retract_ask_accept ''KT1market'')
   \<and> lodash_get exampleRetractAsk ''parameter.value'' = JStr ''9''
   \<and> lodash_get exampleRetractAsk ''diffs'' = JArr [askDiff ''9'']
   \<and> wfDiff (askDiff ''9'')
   \<and> (\<exists>ev. retract_ask_exec (\<lambda>s. s) exampleValidators exampleRetractAsk = Inr ev
         \<and> ra_ask_id ev = JStr ''9''
         \<and> ra_id ev = ''OBJKT_RETRACT_ASK_V3:op:7:unset:0'')"
proof -
  let ?fs = "[(''id'', JNum 42), (''hash'', JStr ''op''), (''counter'', JNum 7), (''nonce'', JNull),
           (''level'', JNum 100), (''timestamp'', JStr ''2022-01-01T00:00:00Z''),
           (''parameter'', JObj [(''entrypoint'', JStr ''retract_ask''), (''value'', JStr ''9'')]),
           (''target'', JObj [(''address'', JStr ''KT1market'')]),
           (''diffs'', JArr [askDiff ''9''])]"
  have tx: "exampleRetractAsk = JObj ?fs"
    by (simp add: exampleRetractAsk_def)
  have i1: "map_of ?fs ''hash'' \<noteq> None" and i2: "map_of ?fs ''counter'' \<noteq> None"
    and i3: "map_of ?fs ''nonce'' \<noteq> None"
    by simp_all
  have acc: "transactionMatchesPattern exampleRetractAsk (retract_ask_accept ''KT1market'')"
    by (simp add: tx transactionMatchesPattern_def retract_ask_accept_def lodash_get_def castPath_def)
  have par: "lodash_get exampleRetractAsk ''parameter.value'' = JStr ''9''"
    by (simp add: tx lodash_get_def castPath_def)
  have dfs: "lodash_get exampleRetractAsk ''diffs'' = JArr [askDiff ''9'']"
    by (simp add: tx lodash_get_def castPath_def)
  have wf1: "wfDiff (askDiff ''9'')"
    by (simp add: wfDiff_def askDiff_def)
  have wf: "\<forall>d' \<in> set [askDiff ''9'']. wfDiff d'"
    using wf1 by simp
  have d_in: "askDiff ''9'' \<in> set [askDiff ''9'']"
    by simp
  have d1: "getProp (askDiff ''9'') ''bigmap'' = JNum 574013"
    and d2: "getProp (askDiff ''9'') ''path'' = JStr ''asks''"
    and d3: "getProp (askDiff ''9'') ''action'' = JStr ''remove_key''"
    and d4: "getProp (getProp (askDiff ''9'') ''content'') ''key'' = JStr ''9''"
    by (simp_all add: askDiff_def)
  have only: "\<forall>d' \<in> set [askDiff ''9''].
        getProp d' ''bigmap'' = JNum 574013 \<and> getProp d' ''path'' = JStr ''asks''
        \<and> getProp d' ''action'' = JStr ''remove_key''
        \<and> (''9'' = [] \<or> getProp (getProp d' ''content'') ''key'' = JStr ''9'') \<longrightarrow> d' = askDiff ''9''"
    by simp
  have v1: "PgBigInt exampleValidators (JStr (toString (getProp exampleRetractAsk ''id'')))"
    and v2: "IsoDateString exampleValidators (getProp exampleRetractAsk ''timestamp'')"
    and v3: "PositiveInteger exampleValidators (getProp exampleRetractAsk ''level'')"
    and v6: "isString (getProp exampleRetractAsk ''hash'')"
    and v8: "PgBigInt exampleValidators (JStr ''9'')"
    by (simp_all add: tx exampleValidators_def)
  have v4: "ContractAddress exampleValidators (lodash_get (askDiff ''9'') ''content.value.token.address'')"
    and v5: "isString (lodash_get (askDiff ''9'') ''content.value.token.token_id'')"
    and v7: "TezosAddress exampleValidators (lodash_get (askDiff ''9'') ''content.value.creator'')"
    by (simp_all add: askDiff_def exampleValidators_def lodash_get_def castPath_def)
  from retract_ask_produces_one_event
    [where mh = "\<lambda>s. s", OF tx i1 i2 i3 acc par dfs wf d_in d1 d2 d3 d4 only v1 v2 v3 v4 v5 v6 v7 v8]
  have "\<exists>ev. retract_ask_exec (\<lambda>s. s) exampleValidators exampleRetractAsk = Inr ev
         \<and> ra_ask_id ev = JStr ''9''
         \<and> ra_id ev = eventIdInput EVENT_TYPE_OBJKT_RETRACT_ASK_V3 exampleRetractAsk 0"
    by blast
  moreover have "eventIdInput EVENT_TYPE_OBJKT_RETRACT_ASK_V3 exampleRetractAsk 0
      = ''OBJKT_RETRACT_ASK_V3:op:7:unset:0''"
    by (simp add: tx eventIdInput_def EVENT_TYPE_OBJKT_RETRACT_ASK_V3_def int_to_string_def
        nat_to_string.simps digit_char_def)
  ultimately show ?thesis
    using acc par dfs wf1 by simp
qed

end
